theory Spec2Isabelle
  imports Main
begin

section \<open>Values at run time\<close>

text \<open>
  The chat store is a React provider written in TypeScript. Its type annotations are
  erased when it runs: what \<^verbatim>\<open>response.json()\<close> yields is typed \<^verbatim>\<open>any\<close> and is inspected
  dynamically, so a decoded body is modelled as a JavaScript value. Every \<^verbatim>\<open>throw\<close> of the
  source, and every rejection of an awaited promise, is a value of type \<open>error\<close>.
\<close>

datatype error = TypeError | SyntaxError | NetworkError | Error string

text \<open>
  \<open>JObj\<close> lists the own properties of an object, the binding that is in force first.
  Numbers are carried around by this code and never computed with.
\<close>

datatype jsval =
    JUndefined
  | JNull
  | JBool bool
  | JNum int
  | JStr string
  | JArr "jsval list"
  | JObj "(string \<times> jsval) list"

text \<open>
  The property read \<^verbatim>\<open>v.p\<close>, for the property names this module reads (\<^verbatim>\<open>messages\<close>,
  \<^verbatim>\<open>id\<close>, \<^verbatim>\<open>text\<close>, \<^verbatim>\<open>sender\<close>, \<^verbatim>\<open>timestamp\<close>), none of which is inherited from a
  prototype: reading from \<^verbatim>\<open>undefined\<close> or \<^verbatim>\<open>null\<close> throws a TypeError, an absent property
  reads as \<^verbatim>\<open>undefined\<close>.
\<close>

fun get_prop :: "jsval \<Rightarrow> string \<Rightarrow> error + jsval" where
  "get_prop JUndefined p = Inl TypeError"
| "get_prop JNull p = Inl TypeError"
| "get_prop (JObj kvs) p = Inr (case map_of kvs p of None \<Rightarrow> JUndefined | Some v \<Rightarrow> v)"
| "get_prop v p = Inr JUndefined"

text \<open>\<^verbatim>\<open>Array.prototype.map\<close> with a callback that may throw: left to right, the first
  exception ends the call.\<close>

fun mapE :: "('a \<Rightarrow> error + 'b) \<Rightarrow> 'a list \<Rightarrow> error + 'b list" where
  "mapE f [] = Inr []"
| "mapE f (x # xs) =
     (case f x of
        Inl e \<Rightarrow> Inl e
      | Inr y \<Rightarrow> (case mapE f xs of Inl e \<Rightarrow> Inl e | Inr ys \<Rightarrow> Inr (y # ys)))"

text \<open>The method call \<^verbatim>\<open>v.map(f)\<close>: only an array has a callable \<^verbatim>\<open>map\<close>.\<close>

definition array_map :: "(jsval \<Rightarrow> error + 'b) \<Rightarrow> jsval \<Rightarrow> error + 'b list" where
  "array_map f v = (case v of JArr xs \<Rightarrow> mapE f xs | _ \<Rightarrow> Inl TypeError)"

text \<open>A \<^verbatim>\<open>Date\<close> object: a time value in milliseconds since the epoch, or the invalid date.\<close>

datatype date = Date int | Invalid_Date

text \<open>\<^verbatim>\<open>Number.prototype.toString\<close> on an integer such as \<^verbatim>\<open>Date.now()\<close> returns: decimal
  digits, with a minus sign below zero.\<close>

definition digit_char :: "nat \<Rightarrow> char" where
  "digit_char d = ''0123456789'' ! d"

fun digits :: "nat \<Rightarrow> string" where
  "digits n = (if n < 10 then [digit_char n] else digits (n div 10) @ [digit_char (n mod 10)])"

declare digits.simps [simp del]

definition toString :: "int \<Rightarrow> string" where
  "toString n = (if n < 0 then CHR ''-'' # digits (nat (- n)) else digits (nat n))"

section \<open>The store\<close>

datatype sender_tag = User | Bot

definition sender_string :: "sender_tag \<Rightarrow> string" where
  "sender_string sender = (case sender of User \<Rightarrow> ''user'' | Bot \<Rightarrow> ''bot'')"

text \<open>
  \<^verbatim>\<open>interface Message\<close>. A message built by \<open>addMessage\<close> holds strings; one built by
  \<open>loadConversation\<close> holds whatever the body held under each name.
\<close>

record message =
  msg_id :: jsval
  msg_text :: jsval
  msg_sender :: jsval
  msg_timestamp :: date

text \<open>\<^verbatim>\<open>interface Conversation\<close>, at its declared type: the store keeps conversation
  summaries as they come and reads only their \<^verbatim>\<open>id\<close>.\<close>

record conversation =
  conv_id :: string
  agent_name :: string
  title :: string
  created_at :: string
  updated_at :: string
  message_count :: int

text \<open>The four \<^verbatim>\<open>useState\<close> cells of \<^verbatim>\<open>ChatProvider\<close>, and their initial values.\<close>

record chat_state =
  messages :: "message list"
  conversations :: "conversation list"
  currentConversationId :: "string option"
  isLoading :: bool

definition initial_state :: chat_state where
  "initial_state =
     \<lparr>messages = [], conversations = [], currentConversationId = None, isLoading = False\<rparr>"

text \<open>
  \<open>addMessage\<close> reads the clock twice: \<^verbatim>\<open>Date.now()\<close> for the id and \<^verbatim>\<open>new Date()\<close> for the
  timestamp. Both readings are arguments. The update is the functional one,
  \<^verbatim>\<open>setMessages(prev => [...prev, newMessage])\<close>.
\<close>

definition newMessage :: "int \<Rightarrow> int \<Rightarrow> string \<Rightarrow> sender_tag \<Rightarrow> message" where
  "newMessage date_now new_date text sender =
     \<lparr>msg_id = JStr (toString date_now), msg_text = JStr text,
      msg_sender = JStr (sender_string sender), msg_timestamp = Date new_date\<rparr>"

definition addMessage :: "int \<Rightarrow> int \<Rightarrow> string \<Rightarrow> sender_tag \<Rightarrow> chat_state \<Rightarrow> chat_state" where
  "addMessage date_now new_date text sender s =
     s\<lparr>messages := messages s @ [newMessage date_now new_date text sender]\<rparr>"

text \<open>A sequence of \<open>addMessage\<close> calls, each with its two clock readings, its text and its
  sender, in call order.\<close>

fun addMessages :: "(int \<times> int \<times> string \<times> sender_tag) list \<Rightarrow> chat_state \<Rightarrow> chat_state" where
  "addMessages [] s = s"
| "addMessages ((date_now, new_date, text, sender) # calls) s =
     addMessages calls (addMessage date_now new_date text sender s)"

definition clearMessages :: "chat_state \<Rightarrow> chat_state" where
  "clearMessages s = s\<lparr>messages := [], currentConversationId := None\<rparr>"

definition createNewConversation :: "chat_state \<Rightarrow> chat_state" where
  "createNewConversation s = s\<lparr>messages := [], currentConversationId := None\<rparr>"

definition setIsLoading :: "bool \<Rightarrow> chat_state \<Rightarrow> chat_state" where
  "setIsLoading loading s = s\<lparr>isLoading := loading\<rparr>"

section \<open>The remote calls\<close>

text \<open>
  What \<^verbatim>\<open>await fetch(...)\<close> gives: a rejection (\<open>Inl\<close>), or a response with its \<^verbatim>\<open>ok\<close>
  flag and the outcome of \<^verbatim>\<open>await response.json()\<close>, which rejects on a body that does not
  parse. The outcome is an argument of each operation.
\<close>

record 'b response =
  ok :: bool
  json :: "error + 'b"

type_synonym 'b fetch_result = "error + 'b response"

text \<open>The callback of \<^verbatim>\<open>history.messages.map\<close>. \<^verbatim>\<open>new Date(v)\<close> is a parameter: it returns
  a date for every string and may throw on an object.\<close>

definition remap_message :: "(jsval \<Rightarrow> error + date) \<Rightarrow> jsval \<Rightarrow> error + message" where
  "remap_message newDate msg =
     (case get_prop msg ''id'' of Inl e \<Rightarrow> Inl e | Inr i \<Rightarrow>
     (case get_prop msg ''text'' of Inl e \<Rightarrow> Inl e | Inr t \<Rightarrow>
     (case get_prop msg ''sender'' of Inl e \<Rightarrow> Inl e | Inr sn \<Rightarrow>
     (case get_prop msg ''timestamp'' of Inl e \<Rightarrow> Inl e | Inr ts \<Rightarrow>
     (case newDate ts of Inl e \<Rightarrow> Inl e | Inr d \<Rightarrow>
        Inr \<lparr>msg_id = i, msg_text = t, msg_sender = sn, msg_timestamp = d\<rparr>)))))"

text \<open>\<^verbatim>\<open>history.messages.map(...)\<close>.\<close>

definition remap_history :: "(jsval \<Rightarrow> error + date) \<Rightarrow> jsval \<Rightarrow> error + message list" where
  "remap_history newDate history =
     (case get_prop history ''messages'' of
        Inl e \<Rightarrow> Inl e
      | Inr ms \<Rightarrow> array_map (remap_message newDate) ms)"

text \<open>
  \<open>loadConversation\<close> runs in two parts. The first runs at the call, up to the
  \<^verbatim>\<open>await fetch\<close>. The second runs when the fetch settles, on the state the store has then:
  the rest of the \<^verbatim>\<open>try\<close> block, \<open>loadConversation_try\<close>, whose exception the \<^verbatim>\<open>catch\<close>
  logs and drops, and the \<^verbatim>\<open>finally\<close>. Nothing reads or writes the state between the
  two awaits, so they are one suspension.
\<close>

definition loadConversation_begin :: "chat_state \<Rightarrow> chat_state" where
  "loadConversation_begin s = s\<lparr>isLoading := True\<rparr>"

definition loadConversation_try ::
  "(jsval \<Rightarrow> error + date) \<Rightarrow> jsval fetch_result \<Rightarrow> string \<Rightarrow> chat_state \<Rightarrow> error + chat_state" where
  "loadConversation_try newDate res conversationId s =
     (case res of
        Inl e \<Rightarrow> Inl e
      | Inr response \<Rightarrow>
          if ok response then
            (case json response of
               Inl e \<Rightarrow> Inl e
             | Inr history \<Rightarrow>
                 (case remap_history newDate history of
                    Inl e \<Rightarrow> Inl e
                  | Inr loadedMessages \<Rightarrow>
                      Inr (s\<lparr>messages := loadedMessages,
                             currentConversationId := Some conversationId\<rparr>)))
          else Inr s)"

definition loadConversation_settle ::
  "(jsval \<Rightarrow> error + date) \<Rightarrow> jsval fetch_result \<Rightarrow> string \<Rightarrow> chat_state \<Rightarrow> chat_state" where
  "loadConversation_settle newDate res conversationId s =
     (case loadConversation_try newDate res conversationId s of
        Inl e \<Rightarrow> s
      | Inr s' \<Rightarrow> s')\<lparr>isLoading := False\<rparr>"

text \<open>A call that no other operation of the store interleaves with.\<close>

definition loadConversation ::
  "(jsval \<Rightarrow> error + date) \<Rightarrow> jsval fetch_result \<Rightarrow> string \<Rightarrow> chat_state \<Rightarrow> chat_state" where
  "loadConversation newDate res conversationId s =
     loadConversation_settle newDate res conversationId (loadConversation_begin s)"

text \<open>\<open>loadAgentConversations\<close> does nothing to the state before its fetch settles.\<close>

definition loadAgentConversations ::
  "conversation list fetch_result \<Rightarrow> string \<Rightarrow> chat_state \<Rightarrow> chat_state" where
  "loadAgentConversations res agentName s =
     (case res of
        Inl e \<Rightarrow> s
      | Inr response \<Rightarrow>
          if ok response then
            (case json response of
               Inl e \<Rightarrow> s
             | Inr agentConversations \<Rightarrow> s\<lparr>conversations := agentConversations\<rparr>)
          else s)"

text \<open>
  \<open>deleteConversation\<close> compares the id with the \<^verbatim>\<open>currentConversationId\<close> of its closure:
  the pointer of the render the function was taken from, which is the pointer when the call
  is made. The filter is a functional update and \<open>clearMessages\<close> sets both cells, so they
  act on the state the store has when the fetch settles.
\<close>

definition deleteConversation ::
  "string option \<Rightarrow> 'b fetch_result \<Rightarrow> string \<Rightarrow> chat_state \<Rightarrow> chat_state" where
  "deleteConversation closure_currentConversationId res conversationId s =
     (case res of
        Inl e \<Rightarrow> s
      | Inr response \<Rightarrow>
          if ok response then
            (let s1 = s\<lparr>conversations :=
                          filter (\<lambda>conv. conv_id conv \<noteq> conversationId) (conversations s)\<rparr>
             in if closure_currentConversationId = Some conversationId
                then clearMessages s1 else s1)
          else s)"

section \<open>The hook\<close>

text \<open>
  \<^verbatim>\<open>useContext(ChatContext)\<close> returns the value of the nearest enclosing provider, and the
  default of \<^verbatim>\<open>createContext\<close>, \<^verbatim>\<open>undefined\<close>, when there is none. The enclosing providers'
  values are listed innermost first.
\<close>

definition useContext :: "'a list \<Rightarrow> 'a option" where
  "useContext providers = (case providers of [] \<Rightarrow> None | v # _ \<Rightarrow> Some v)"

definition useChat :: "'a list \<Rightarrow> error + 'a" where
  "useChat providers =
     (case useContext providers of
        None \<Rightarrow> Inl (Error ''useChat must be used within a ChatProvider'')
      | Some ctx \<Rightarrow> Inr ctx)"

section \<open>Calls in flight\<close>

text \<open>
  The store runs on one thread. An asynchronous operation is suspended at its fetch and
  resumes when the fetch settles, in the order the responses arrive; any other operation
  may run in between. An event is a synchronous operation, the call of an asynchronous
  one, or the settling of a fetch in flight. The configuration holds the store and the
  calls in flight: the ids of the loads, and the id and closure pointer of the deletes.
  A delete is called with the \<^verbatim>\<open>currentConversationId\<close> of the render its handler was taken
  from, which may be older than the store's; when a response arrives, the call it answers
  resumes with its own closure.
\<close>

datatype event =
    Add_message int int string sender_tag
  | Clear_messages
  | Create_new_conversation
  | Set_is_loading bool
  | Load_call string
  | Load_settled string "jsval fetch_result"
  | Agent_conversations_settled string "conversation list fetch_result"
  | Delete_call string "string option"
  | Delete_settled string "string option" "unit fetch_result"

record config =
  store :: chat_state
  loads_in_flight :: "string list"
  deletes_in_flight :: "(string \<times> string option) list"

definition initial_config :: config where
  "initial_config = \<lparr>store = initial_state, loads_in_flight = [], deletes_in_flight = []\<rparr>"

fun step :: "(jsval \<Rightarrow> error + date) \<Rightarrow> event \<Rightarrow> config \<Rightarrow> config" where
  "step newDate (Add_message date_now new_date text sender) c =
     c\<lparr>store := addMessage date_now new_date text sender (store c)\<rparr>"
| "step newDate Clear_messages c = c\<lparr>store := clearMessages (store c)\<rparr>"
| "step newDate Create_new_conversation c = c\<lparr>store := createNewConversation (store c)\<rparr>"
| "step newDate (Set_is_loading loading) c = c\<lparr>store := setIsLoading loading (store c)\<rparr>"
| "step newDate (Load_call conversationId) c =
     c\<lparr>store := loadConversation_begin (store c),
       loads_in_flight := loads_in_flight c @ [conversationId]\<rparr>"
| "step newDate (Load_settled conversationId res) c =
     (if conversationId \<in> set (loads_in_flight c)
      then c\<lparr>store := loadConversation_settle newDate res conversationId (store c),
             loads_in_flight := remove1 conversationId (loads_in_flight c)\<rparr>
      else c)"
| "step newDate (Agent_conversations_settled agentName res) c =
     c\<lparr>store := loadAgentConversations res agentName (store c)\<rparr>"
| "step newDate (Delete_call conversationId closure_currentConversationId) c =
     c\<lparr>deletes_in_flight :=
         deletes_in_flight c @ [(conversationId, closure_currentConversationId)]\<rparr>"
| "step newDate (Delete_settled conversationId closure_currentConversationId res) c =
     (if (conversationId, closure_currentConversationId) \<in> set (deletes_in_flight c)
      then c\<lparr>store :=
               deleteConversation closure_currentConversationId res conversationId (store c),
             deletes_in_flight :=
               remove1 (conversationId, closure_currentConversationId) (deletes_in_flight c)\<rparr>
      else c)"

fun run :: "(jsval \<Rightarrow> error + date) \<Rightarrow> event list \<Rightarrow> config \<Rightarrow> config" where
  "run newDate [] c = c"
| "run newDate (e # es) c = run newDate es (step newDate e c)"

text \<open>The events that can take the loading flag down: a load settling, whichever load it
  is, and the exposed setter called with false.\<close>

fun lowers_loading :: "event \<Rightarrow> bool" where
  "lowers_loading (Load_settled conversationId res) = True"
| "lowers_loading (Set_is_loading loading) = (\<not> loading)"
| "lowers_loading e = False"

section \<open>Example data\<close>

text \<open>A conversation summary with a given id, and a stand-in for \<^verbatim>\<open>new Date(v)\<close> that is right
  on the values the examples pass: a number, one ISO string, and \<^verbatim>\<open>undefined\<close>.\<close>

definition example_conversation :: "string \<Rightarrow> conversation" where
  "example_conversation i =
     \<lparr>conv_id = i, agent_name = ''agent'', title = ''title'', created_at = ''2024-01-01'',
      updated_at = ''2024-01-02'', message_count = 0\<rparr>"

definition example_newDate :: "jsval \<Rightarrow> error + date" where
  "example_newDate v =
     (if v = JStr ''1970-01-01T00:00:01.000Z'' then Inr (Date 1000)
      else case v of JNum n \<Rightarrow> Inr (Date n) | _ \<Rightarrow> Inr Invalid_Date)"

text \<open>A body as the remote sends it, and a state with an unsaved message, two cached
  conversations and a conversation open.\<close>

definition example_history :: jsval where
  "example_history =
     JObj [(''messages'', JArr
       [JObj [(''id'', JStr ''m1''), (''text'', JStr ''hello''), (''sender'', JStr ''user''),
              (''timestamp'', JStr ''1970-01-01T00:00:01.000Z'')],
        JObj [(''id'', JStr ''m2''), (''text'', JStr ''hi''), (''sender'', JStr ''bot''),
              (''timestamp'', JNum 2000)]])]"

definition example_state :: chat_state where
  "example_state =
     \<lparr>messages = [newMessage 5 6 ''draft'' User],
      conversations = [example_conversation ''c1'', example_conversation ''c2''],
      currentConversationId = Some ''c0'', isLoading = False\<rparr>"

section \<open>Resetting the conversation\<close>



section \<open>The hook outside a provider\<close>

text \<open>
  C9. With no enclosing \<^verbatim>\<open>ChatProvider\<close> the context is undefined and \<open>useChat\<close> throws
  its error; inside a provider it returns the innermost provider's value.
\<close>

theorem useChat_outside_provider_throws:
  "useChat ([] :: 'a list) = Inl (Error ''useChat must be used within a ChatProvider'') \<and>
   useChat (v # vs) = Inr v"
  by (simp add: useChat_def useContext_def)

theorem useChat_outside_provider_throws_witness:
  "useChat ([] :: chat_state list) = Inl (Error ''useChat must be used within a ChatProvider'') \<and>
   useChat [initial_state] = Inr initial_state"
  using useChat_outside_provider_throws [of initial_state "[]"]
    useChat_outside_provider_throws [where 'a = chat_state]
  by simp

section \<open>Listing an agent's conversations\<close>

text \<open>
  C7. \<open>loadAgentConversations\<close>: when the fetch gives a response with \<open>ok\<close> whose body
  decodes, the cached list becomes the returned list, whatever it held before; when the
  fetch throws, the status is not a success or the body does not decode, the cached list is
  unchanged. In every outcome the loading flag, the messages and the current conversation
  id are unchanged.
\<close>

theorem loadAgentConversations_replaces_or_keeps:
  "(res = Inr r \<and> ok r \<and> json r = Inr agentConversations \<longrightarrow>
      conversations (loadAgentConversations res agentName s) = agentConversations) \<and>
   (res = Inl e \<or> (res = Inr r \<and> (\<not> ok r \<or> json r = Inl e)) \<longrightarrow>
      conversations (loadAgentConversations res agentName s) = conversations s) \<and>
   isLoading (loadAgentConversations res agentName s) = isLoading s \<and>
   messages (loadAgentConversations res agentName s) = messages s \<and>
   currentConversationId (loadAgentConversations res agentName s) = currentConversationId s"
  by (auto simp: loadAgentConversations_def split: sum.splits)

theorem loadAgentConversations_replaces_or_keeps_witness:
  "conversations (loadAgentConversations
      (Inr \<lparr>ok = True, json = Inr [example_conversation ''c9'']\<rparr>) ''agent''
      (initial_state\<lparr>conversations := [example_conversation ''c1'']\<rparr>))
     = [example_conversation ''c9''] \<and>
   conversations (loadAgentConversations (Inl NetworkError) ''agent''
      (initial_state\<lparr>conversations := [example_conversation ''c1'']\<rparr>))
     = [example_conversation ''c1''] \<and>
   conversations (loadAgentConversations (Inr \<lparr>ok = False, json = Inl SyntaxError\<rparr>) ''agent''
      (initial_state\<lparr>conversations := [example_conversation ''c1'']\<rparr>))
     = [example_conversation ''c1'']"
  using
    loadAgentConversations_replaces_or_keeps
      [of "Inr \<lparr>ok = True, json = Inr [example_conversation ''c9'']\<rparr>"
          "\<lparr>ok = True, json = Inr [example_conversation ''c9'']\<rparr>"
          "[example_conversation ''c9'']" "''agent''"
          "initial_state\<lparr>conversations := [example_conversation ''c1'']\<rparr>" NetworkError]
    loadAgentConversations_replaces_or_keeps
      [of "Inl NetworkError" "\<lparr>ok = False, json = Inl NetworkError\<rparr>" "[]" "''agent''"
          "initial_state\<lparr>conversations := [example_conversation ''c1'']\<rparr>" NetworkError]
    loadAgentConversations_replaces_or_keeps
      [of "Inr \<lparr>ok = False, json = Inl SyntaxError\<rparr>"
          "\<lparr>ok = False, json = Inl SyntaxError\<rparr>" "[]" "''agent''"
          "initial_state\<lparr>conversations := [example_conversation ''c1'']\<rparr>" SyntaxError]
  by simp

section \<open>Deleting a conversation\<close>

text \<open>
  C6. When the DELETE throws or its status is not a success, \<open>deleteConversation\<close> leaves
  the whole state as it was: the cached list keeps the entry, and the messages and the
  current conversation id are unchanged.
\<close>

theorem deleteConversation_failure_keeps_state:
  assumes "res = Inl e \<or> (\<exists>r. res = Inr r \<and> \<not> ok r)"
  shows "deleteConversation closure_currentConversationId res conversationId s = s"
  using assms by (auto simp: deleteConversation_def)

theorem deleteConversation_failure_keeps_state_witness:
  "deleteConversation (Some ''c1'') (Inl NetworkError :: unit fetch_result) ''c1''
     (initial_state\<lparr>conversations := [example_conversation ''c1''],
        currentConversationId := Some ''c1''\<rparr>)
   = initial_state\<lparr>conversations := [example_conversation ''c1''],
        currentConversationId := Some ''c1''\<rparr> \<and>
   deleteConversation (Some ''c1'') (Inr \<lparr>ok = False, json = Inr ()\<rparr>) ''c1''
     (initial_state\<lparr>conversations := [example_conversation ''c1''],
        currentConversationId := Some ''c1''\<rparr>)
   = initial_state\<lparr>conversations := [example_conversation ''c1''],
        currentConversationId := Some ''c1''\<rparr>"
proof -
  have a: "(Inl NetworkError :: unit fetch_result) = Inl NetworkError \<or>
      (\<exists>r. (Inl NetworkError :: unit fetch_result) = Inr r \<and> \<not> ok r)"
    by simp
  have b: "Inr \<lparr>ok = False, json = Inr ()\<rparr> = Inl NetworkError \<or>
      (\<exists>r. Inr \<lparr>ok = False, json = Inr ()\<rparr> = Inr r \<and> \<not> ok r)"
    by simp
  show ?thesis
    using deleteConversation_failure_keeps_state [OF a]
      deleteConversation_failure_keeps_state [OF b]
    by simp
qed

text \<open>
  C10. After a DELETE that succeeded no entry of the cached list has the deleted id,
  however many had it before: the list is shorter by the number of entries that had it, and
  the entries with another id stay, in their order.
\<close>

theorem deleteConversation_removes_every_match:
  assumes "res = Inr r" and "ok r"
  shows "conversationId \<notin> conv_id ` set (conversations
           (deleteConversation closure_currentConversationId res conversationId s)) \<and>
         length (conversations
           (deleteConversation closure_currentConversationId res conversationId s))
           + length (filter (\<lambda>conv. conv_id conv = conversationId) (conversations s))
           = length (conversations s) \<and>
         filter (\<lambda>conv. conv_id conv \<noteq> conversationId) (conversations
           (deleteConversation closure_currentConversationId res conversationId s))
           = filter (\<lambda>conv. conv_id conv \<noteq> conversationId) (conversations s)"
proof -
  have c: "conversations (deleteConversation closure_currentConversationId res conversationId s)
      = filter (\<lambda>conv. conv_id conv \<noteq> conversationId) (conversations s)"
    using assms by (simp add: deleteConversation_def clearMessages_def Let_def)
  have "length (filter (\<lambda>conv. conv_id conv \<noteq> conversationId) (conversations s))
      + length (filter (\<lambda>conv. conv_id conv = conversationId) (conversations s))
      = length (conversations s)"
    using sum_length_filter_compl [of "\<lambda>conv. conv_id conv = conversationId" "conversations s"]
    by simp
  with c show ?thesis by auto
qed

theorem deleteConversation_removes_every_match_witness:
  "conversations (deleteConversation None (Inr \<lparr>ok = True, json = Inr ()\<rparr>) ''c1''
     (initial_state\<lparr>conversations :=
        [example_conversation ''c1'', example_conversation ''c2'',
         (example_conversation ''c1'')\<lparr>title := ''again''\<rparr>]\<rparr>))
   = [example_conversation ''c2''] \<and>
   ''c1'' \<notin> conv_id ` set (conversations
     (deleteConversation None (Inr \<lparr>ok = True, json = Inr ()\<rparr>) ''c1''
       (initial_state\<lparr>conversations :=
          [example_conversation ''c1'', example_conversation ''c2'',
           (example_conversation ''c1'')\<lparr>title := ''again''\<rparr>]\<rparr>)))"
proof -
  have e: "conversations (deleteConversation None (Inr \<lparr>ok = True, json = Inr ()\<rparr>) ''c1''
     (initial_state\<lparr>conversations :=
        [example_conversation ''c1'', example_conversation ''c2'',
         (example_conversation ''c1'')\<lparr>title := ''again''\<rparr>]\<rparr>))
   = [example_conversation ''c2'']"
    by (simp add: deleteConversation_def example_conversation_def)
  show ?thesis
    using e deleteConversation_removes_every_match
      [of "Inr \<lparr>ok = True, json = Inr ()\<rparr>" "\<lparr>ok = True, json = Inr ()\<rparr>" "''c1''" None
          "initial_state\<lparr>conversations :=
            [example_conversation ''c1'', example_conversation ''c2'',
             (example_conversation ''c1'')\<lparr>title := ''again''\<rparr>]\<rparr>"]
    by simp
qed

lemma filter_single_split:
  "length (filter P cs) = 1 \<Longrightarrow>
   \<exists>xs c ys. cs = xs @ c # ys \<and> P c \<and> filter (\<lambda>x. \<not> P x) cs = xs @ ys"
proof (induction cs)
  case Nil
  then show ?case by simp
next
  case (Cons a cs)
  show ?case
  proof (cases "P a")
    case True
    with Cons.prems have "filter P cs = []" by simp
    then have "filter (\<lambda>x. \<not> P x) cs = cs"
      by (simp add: filter_empty_conv)
    with True have "a # cs = [] @ a # cs \<and> P a \<and> filter (\<lambda>x. \<not> P x) (a # cs) = [] @ cs"
      by simp
    then show ?thesis by blast
  next
    case False
    with Cons.prems have "length (filter P cs) = 1" by simp
    then obtain xs c ys where
      "cs = xs @ c # ys" and "P c" and "filter (\<lambda>x. \<not> P x) cs = xs @ ys"
      using Cons.IH by blast
    with False have "a # cs = (a # xs) @ c # ys \<and> P c \<and>
        filter (\<lambda>x. \<not> P x) (a # cs) = (a # xs) @ ys"
      by simp
    then show ?thesis by blast
  qed
qed

lemma deleteConversation_ok_conversations:
  "ok r \<Longrightarrow>
   conversations (deleteConversation cur (Inr r) conversationId s)
     = filter (\<lambda>conv. conv_id conv \<noteq> conversationId) (conversations s)"
  by (simp add: deleteConversation_def clearMessages_def Let_def)

text \<open>
  C4, as the code has it. After a DELETE that succeeded the cached list is the prior list
  filtered by id: every entry that has the id is gone and the others stay, in their order.
  So when exactly one entry has the id the list is the prior one with that entry taken
  out, and when none has it the list is unchanged. The messages and the current conversation id are cleared when the
  pointer the call was made with is the deleted id, and are untouched otherwise. The loading
  flag is untouched.
\<close>

theorem deleteConversation_success:
  assumes "res = Inr r" and "ok r"
  shows
    "conversations (deleteConversation cur res conversationId s)
       = filter (\<lambda>conv. conv_id conv \<noteq> conversationId) (conversations s) \<and>
     (length (filter (\<lambda>conv. conv_id conv = conversationId) (conversations s)) = 1 \<longrightarrow>
        (\<exists>xs conv ys. conversations s = xs @ conv # ys \<and> conv_id conv = conversationId \<and>
           conversations (deleteConversation cur res conversationId s) = xs @ ys)) \<and>
     (conversationId \<notin> conv_id ` set (conversations s) \<longrightarrow>
        conversations (deleteConversation cur res conversationId s) = conversations s) \<and>
     (cur = Some conversationId \<longrightarrow>
        messages (deleteConversation cur res conversationId s) = [] \<and>
        currentConversationId (deleteConversation cur res conversationId s) = None) \<and>
     (cur \<noteq> Some conversationId \<longrightarrow>
        messages (deleteConversation cur res conversationId s) = messages s \<and>
        currentConversationId (deleteConversation cur res conversationId s)
          = currentConversationId s) \<and>
     isLoading (deleteConversation cur res conversationId s) = isLoading s"
proof -
  have c: "conversations (deleteConversation cur res conversationId s)
      = filter (\<lambda>conv. conv_id conv \<noteq> conversationId) (conversations s)"
    using assms by (simp add: deleteConversation_ok_conversations)
  have one: "length (filter (\<lambda>conv. conv_id conv = conversationId) (conversations s)) = 1 \<longrightarrow>
        (\<exists>xs conv ys. conversations s = xs @ conv # ys \<and> conv_id conv = conversationId \<and>
           conversations (deleteConversation cur res conversationId s) = xs @ ys)"
    using filter_single_split [of "\<lambda>conv. conv_id conv = conversationId" "conversations s"] c
    by simp
  have none: "conversationId \<notin> conv_id ` set (conversations s) \<longrightarrow>
        conversations (deleteConversation cur res conversationId s) = conversations s"
    using c by (auto simp: filter_id_conv)
  have rest: "(cur = Some conversationId \<longrightarrow>
        messages (deleteConversation cur res conversationId s) = [] \<and>
        currentConversationId (deleteConversation cur res conversationId s) = None) \<and>
     (cur \<noteq> Some conversationId \<longrightarrow>
        messages (deleteConversation cur res conversationId s) = messages s \<and>
        currentConversationId (deleteConversation cur res conversationId s)
          = currentConversationId s) \<and>
     isLoading (deleteConversation cur res conversationId s) = isLoading s"
    using assms by (simp add: deleteConversation_def clearMessages_def Let_def)
  from c one none rest show ?thesis by blast
qed

text \<open>The scenario of the specification: two cached conversations, the first one open and
  deleted; and the same deletion made while the other conversation is open.\<close>

theorem deleteConversation_success_witness:
  "conversations (deleteConversation (Some ''c1'') (Inr \<lparr>ok = True, json = Inr ()\<rparr>) ''c1''
     (addMessage 5 6 ''hi'' User
       (initial_state\<lparr>conversations := [example_conversation ''c1'', example_conversation ''c2''],
          currentConversationId := Some ''c1''\<rparr>)))
     = [example_conversation ''c2''] \<and>
   messages (deleteConversation (Some ''c1'') (Inr \<lparr>ok = True, json = Inr ()\<rparr>) ''c1''
     (addMessage 5 6 ''hi'' User
       (initial_state\<lparr>conversations := [example_conversation ''c1'', example_conversation ''c2''],
          currentConversationId := Some ''c1''\<rparr>))) = [] \<and>
   currentConversationId (deleteConversation (Some ''c1'') (Inr \<lparr>ok = True, json = Inr ()\<rparr>) ''c1''
     (addMessage 5 6 ''hi'' User
       (initial_state\<lparr>conversations := [example_conversation ''c1'', example_conversation ''c2''],
          currentConversationId := Some ''c1''\<rparr>))) = None \<and>
   messages (deleteConversation (Some ''c2'') (Inr \<lparr>ok = True, json = Inr ()\<rparr>) ''c1''
     (addMessage 5 6 ''hi'' User
       (initial_state\<lparr>conversations := [example_conversation ''c1'', example_conversation ''c2''],
          currentConversationId := Some ''c2''\<rparr>))) = [newMessage 5 6 ''hi'' User] \<and>
   currentConversationId (deleteConversation (Some ''c2'') (Inr \<lparr>ok = True, json = Inr ()\<rparr>) ''c1''
     (addMessage 5 6 ''hi'' User
       (initial_state\<lparr>conversations := [example_conversation ''c1'', example_conversation ''c2''],
          currentConversationId := Some ''c2''\<rparr>))) = Some ''c2''"
proof -
  have e: "conversations (deleteConversation (Some ''c1'') (Inr \<lparr>ok = True, json = Inr ()\<rparr>) ''c1''
     (addMessage 5 6 ''hi'' User
       (initial_state\<lparr>conversations := [example_conversation ''c1'', example_conversation ''c2''],
          currentConversationId := Some ''c1''\<rparr>)))
     = [example_conversation ''c2'']"
    by (simp add: deleteConversation_ok_conversations addMessage_def example_conversation_def)
  show ?thesis
    using e
      deleteConversation_success
        [where res = "Inr \<lparr>ok = True, json = Inr ()\<rparr>" and r = "\<lparr>ok = True, json = Inr ()\<rparr>"
          and conversationId = "''c1''" and cur = "Some ''c1''"
          and s = "addMessage 5 6 ''hi'' User
            (initial_state\<lparr>conversations := [example_conversation ''c1'', example_conversation ''c2''],
               currentConversationId := Some ''c1''\<rparr>)"]
      deleteConversation_success
        [where res = "Inr \<lparr>ok = True, json = Inr ()\<rparr>" and r = "\<lparr>ok = True, json = Inr ()\<rparr>"
          and conversationId = "''c1''" and cur = "Some ''c2''"
          and s = "addMessage 5 6 ''hi'' User
            (initial_state\<lparr>conversations := [example_conversation ''c1'', example_conversation ''c2''],
               currentConversationId := Some ''c2''\<rparr>)"]
    by (simp add: addMessage_def initial_state_def)
qed

text \<open>Deleting a conversation that is not cached, the DELETE succeeding: the list keeps its
  one entry, it is not one element shorter.\<close>

theorem deleteConversation_one_fewer_counterexample:
  "ok \<lparr>ok = True, json = Inr ()\<rparr> \<and>
   conversations (deleteConversation None (Inr \<lparr>ok = True, json = Inr ()\<rparr>) ''c1''
     (initial_state\<lparr>conversations := [example_conversation ''c2'']\<rparr>))
     = [example_conversation ''c2''] \<and>
   length (conversations (deleteConversation None (Inr \<lparr>ok = True, json = Inr ()\<rparr>) ''c1''
     (initial_state\<lparr>conversations := [example_conversation ''c2'']\<rparr>))) + 1
     \<noteq> length (conversations (initial_state\<lparr>conversations := [example_conversation ''c2'']\<rparr>))"
  by (simp add: deleteConversation_def example_conversation_def)

section \<open>Appending messages\<close>

lemma digits_small: "n < 10 \<Longrightarrow> digits n = [digit_char n]"
  by (subst digits.simps) simp

lemma digits_big: "\<not> n < 10 \<Longrightarrow> digits n = digits (n div 10) @ [digit_char (n mod 10)]"
  by (subst digits.simps) simp

lemma digits_nonempty: "digits n \<noteq> []"
  by (cases "n < 10") (simp_all add: digits_small digits_big)

lemma digit_char_inj:
  assumes "d < 10" and "d' < 10" and "digit_char d = digit_char d'"
  shows "d = d'"
proof -
  have "distinct ''0123456789''" by simp
  moreover have "d < length ''0123456789''" and "d' < length ''0123456789''"
    using assms by simp_all
  ultimately show ?thesis
    using assms(3) unfolding digit_char_def by (simp only: nth_eq_iff_index_eq)
qed

lemma digit_char_not_minus: "d < 10 \<Longrightarrow> digit_char d \<noteq> CHR ''-''"
proof -
  assume "d < 10"
  then have "d < length ''0123456789''" by simp
  then have "digit_char d \<in> set ''0123456789''"
    unfolding digit_char_def by (rule nth_mem)
  then show ?thesis by auto
qed

lemma digits_no_minus: "CHR ''-'' \<notin> set (digits n)"
proof (induction n rule: digits.induct)
  case (1 n)
  show ?case
  proof (cases "n < 10")
    case True
    then show ?thesis using digit_char_not_minus [of n] by (auto simp: digits_small)
  next
    case False
    then show ?thesis
      using "1.IH" digit_char_not_minus [of "n mod 10"] by (auto simp: digits_big)
  qed
qed

lemma digits_inj: "digits n = digits m \<Longrightarrow> n = m"
proof (induction n arbitrary: m rule: digits.induct)
  case (1 n)
  show ?case
  proof (cases "n < 10")
    case n: True
    show ?thesis
    proof (cases "m < 10")
      case True
      with n "1.prems" show ?thesis
        by (simp add: digits_small digit_char_inj)
    next
      case False
      with n "1.prems" digits_nonempty [of "m div 10"] show ?thesis
        by (simp add: digits_small digits_big)
    qed
  next
    case n: False
    show ?thesis
    proof (cases "m < 10")
      case True
      with n "1.prems" digits_nonempty [of "n div 10"] show ?thesis
        by (simp add: digits_small digits_big)
    next
      case False
      with n "1.prems" have
        "digits (n div 10) = digits (m div 10)" and
        "digit_char (n mod 10) = digit_char (m mod 10)"
        by (simp_all add: digits_big)
      then have "n div 10 = m div 10" and "n mod 10 = m mod 10"
        using "1.IH" [OF n] digit_char_inj [of "n mod 10" "m mod 10"] by simp_all
      then show ?thesis
        by (metis div_mult_mod_eq)
    qed
  qed
qed

lemma minus_not_first_digit: "CHR ''-'' # cs \<noteq> digits n"
proof
  assume "CHR ''-'' # cs = digits n"
  then have "CHR ''-'' \<in> set (digits n)"
    by (metis list.set_intros(1))
  then show False by (simp add: digits_no_minus)
qed

lemma toString_inj: "toString a = toString b \<Longrightarrow> a = b"
proof -
  assume eq: "toString a = toString b"
  consider "a < 0" "b < 0" | "a < 0" "\<not> b < 0" | "\<not> a < 0" "b < 0" | "\<not> a < 0" "\<not> b < 0"
    by blast
  then show ?thesis
  proof cases
    case 1
    with eq have "digits (nat (- a)) = digits (nat (- b))" by (simp add: toString_def)
    then have "nat (- a) = nat (- b)" by (rule digits_inj)
    with 1 show ?thesis by simp
  next
    case 2
    with eq have "CHR ''-'' # digits (nat (- a)) = digits (nat b)"
      by (simp add: toString_def)
    then show ?thesis by (simp add: minus_not_first_digit)
  next
    case 3
    with eq have "CHR ''-'' # digits (nat (- b)) = digits (nat a)"
      by (simp add: toString_def)
    then show ?thesis by (simp add: minus_not_first_digit)
  next
    case 4
    with eq have "digits (nat a) = digits (nat b)" by (simp add: toString_def)
    then have "nat a = nat b" by (rule digits_inj)
    with 4 show ?thesis by simp
  qed
qed

lemma toString_examples:
  "toString 1700000000000 = ''1700000000000'' \<and> toString 0 = ''0'' \<and> toString (- 42) = ''-42''"
  by (simp add: toString_def digits_small digits_big digit_char_def)

lemma addMessages_messages:
  "messages (addMessages calls s)
     = messages s @ map (\<lambda>(date_now, new_date, text, sender).
         newMessage date_now new_date text sender) calls"
proof (induction calls arbitrary: s)
  case Nil
  show ?case by simp
next
  case (Cons call calls)
  obtain date_now new_date body sender where call: "call = (date_now, new_date, body, sender)"
    by (cases call) auto
  show ?case
    by (simp add: call Cons.IH addMessage_def)
qed

lemma newMessage_ids:
  "map msg_id (map (\<lambda>(date_now, new_date, text, sender).
       newMessage date_now new_date text sender) calls)
     = map (\<lambda>n. JStr (toString n)) (map fst calls)"
  by (induction calls) (auto simp: newMessage_def)

lemma distinct_ids_iff: "distinct (map (\<lambda>n. JStr (toString n)) ns) = distinct ns"
proof -
  have "inj_on (\<lambda>n. JStr (toString n)) (set ns)"
    by (rule inj_onI) (simp add: toString_inj)
  then show ?thesis by (simp add: distinct_map)
qed

text \<open>
  C3, as the code has it. A sequence of \<open>addMessage\<close> calls appends one message per call,
  in call order, to the list it started from. The id of each is the decimal rendering of
  the \<^verbatim>\<open>Date.now()\<close> reading of its call, so the appended ids are pairwise distinct exactly
  when those clock readings are pairwise distinct.
\<close>

theorem addMessage_sequence:
  "messages (addMessages calls s)
     = messages s @ map (\<lambda>(date_now, new_date, text, sender).
         newMessage date_now new_date text sender) calls \<and>
   length (messages (addMessages calls s)) = length (messages s) + length calls \<and>
   distinct (map msg_id (drop (length (messages s)) (messages (addMessages calls s))))
     = distinct (map fst calls)"
proof -
  let ?new = "map (\<lambda>(date_now, new_date, text, sender).
      newMessage date_now new_date text sender) calls"
  have m: "messages (addMessages calls s) = messages s @ ?new"
    by (rule addMessages_messages)
  have l: "length (messages (addMessages calls s)) = length (messages s) + length calls"
    by (simp add: m)
  have "drop (length (messages s)) (messages (addMessages calls s)) = ?new"
    by (simp add: m)
  then have "distinct (map msg_id (drop (length (messages s)) (messages (addMessages calls s))))
      = distinct (map (\<lambda>n. JStr (toString n)) (map fst calls))"
    by (simp only: newMessage_ids)
  then have d: "distinct (map msg_id (drop (length (messages s)) (messages (addMessages calls s))))
      = distinct (map fst calls)"
    by (simp only: distinct_ids_iff)
  from m l d show ?thesis by blast
qed

theorem addMessage_sequence_witness:
  "map msg_id (messages (addMessages
      [(1700000000000, 1700000000000, ''hello'', User),
       (1700000000001, 1700000000002, ''hi there'', Bot)] initial_state))
     = [JStr ''1700000000000'', JStr ''1700000000001''] \<and>
   distinct (map msg_id (drop (length (messages initial_state)) (messages (addMessages
      [(1700000000000, 1700000000000, ''hello'', User),
       (1700000000001, 1700000000002, ''hi there'', Bot)] initial_state))))"
proof -
  have ids: "toString 1700000000000 = ''1700000000000'' \<and> toString 1700000000001 = ''1700000000001''"
    by (simp add: toString_def digits_small digits_big digit_char_def)
  show ?thesis
    using addMessage_sequence
      [of "[(1700000000000, 1700000000000, ''hello'', User),
            (1700000000001, 1700000000002, ''hi there'', Bot)]" initial_state]
    by (simp add: ids newMessage_def initial_state_def)
qed

text \<open>Two calls within one millisecond, as when the user's message and the bot's answer are
  appended back to back: both messages get the same id.\<close>

theorem addMessage_ids_counterexample:
  "length (messages (addMessages
      [(1700000000000, 1700000000000, ''hello'', User),
       (1700000000000, 1700000000000, ''hi there'', Bot)] initial_state)) = 2 \<and>
   \<not> distinct (map msg_id (messages (addMessages
      [(1700000000000, 1700000000000, ''hello'', User),
       (1700000000000, 1700000000000, ''hi there'', Bot)] initial_state)))"
  by (simp add: addMessage_def newMessage_def initial_state_def)

section \<open>Loading a conversation\<close>

lemma mapE_Inr:
  "mapE f xs = Inr ys \<Longrightarrow>
   length ys = length xs \<and> (\<forall>i<length xs. f (xs ! i) = Inr (ys ! i))"
proof (induction xs arbitrary: ys)
  case Nil
  then show ?case by simp
next
  case (Cons x xs)
  from Cons.prems obtain y ys' where
    y: "f x = Inr y" and ys': "mapE f xs = Inr ys'" and ys: "ys = y # ys'"
    by (auto split: sum.splits)
  from Cons.IH [OF ys'] have
    "length ys' = length xs" and "\<forall>i<length xs. f (xs ! i) = Inr (ys' ! i)"
    by simp_all
  with y ys show ?case
    by (auto simp: nth_Cons split: nat.splits)
qed

lemma mapE_total:
  "\<forall>x\<in>set xs. \<exists>y. f x = Inr y \<Longrightarrow> \<exists>ys. mapE f xs = Inr ys"
  by (induction xs) auto

lemma mapE_Inl:
  "mapE f xs = Inl e \<Longrightarrow> \<exists>x\<in>set xs. f x = Inl e"
  by (induction xs) (auto split: sum.splits)

lemma remap_message_Inr:
  "remap_message newDate msg = Inr m \<longleftrightarrow>
     get_prop msg ''id'' = Inr (msg_id m) \<and>
     get_prop msg ''text'' = Inr (msg_text m) \<and>
     get_prop msg ''sender'' = Inr (msg_sender m) \<and>
     (\<exists>ts. get_prop msg ''timestamp'' = Inr ts \<and> newDate ts = Inr (msg_timestamp m))"
  by (cases msg; cases m) (auto simp: remap_message_def split: sum.splits)

lemma get_prop_Inl: "get_prop v p = Inl e \<longleftrightarrow> (v = JUndefined \<or> v = JNull) \<and> e = TypeError"
  by (cases v) auto

lemma get_prop_total: "v \<noteq> JUndefined \<Longrightarrow> v \<noteq> JNull \<Longrightarrow> \<exists>w. get_prop v p = Inr w"
  by (cases v) auto

lemma remap_message_total:
  assumes "get_prop msg ''timestamp'' = Inr ts" and "newDate ts = Inr d"
  shows "\<exists>m. remap_message newDate msg = Inr m"
proof -
  from assms(1) have "msg \<noteq> JUndefined" and "msg \<noteq> JNull" by auto
  then obtain i t sn where
    "get_prop msg ''id'' = Inr i" "get_prop msg ''text'' = Inr t" "get_prop msg ''sender'' = Inr sn"
    using get_prop_total by blast
  with assms show ?thesis by (simp add: remap_message_def)
qed

lemma loadConversation_settle_ok:
  assumes "ok r" and "json r = Inr history" and "remap_history newDate history = Inr loaded"
  shows "loadConversation_settle newDate (Inr r) conversationId s
     = s\<lparr>messages := loaded, currentConversationId := Some conversationId, isLoading := False\<rparr>"
  using assms by (simp add: loadConversation_settle_def loadConversation_try_def)

lemma loadConversation_settle_failed:
  assumes "res = Inl e \<or> (\<exists>r. res = Inr r \<and> (\<not> ok r \<or> (\<exists>e. json r = Inl e) \<or>
      (\<exists>history e. json r = Inr history \<and> remap_history newDate history = Inl e)))"
  shows "loadConversation_settle newDate res conversationId s = s\<lparr>isLoading := False\<rparr>"
  using assms by (auto simp: loadConversation_settle_def loadConversation_try_def)

text \<open>
  C1. When the fetch gives a response with \<open>ok\<close> whose body decodes to a history with an
  array under \<^verbatim>\<open>messages\<close>, no element of which is null and each of whose timestamps the
  \<^verbatim>\<open>Date\<close> constructor accepts, the message list becomes the remapped history, element by
  element: \<^verbatim>\<open>id\<close>, \<^verbatim>\<open>text\<close> and \<^verbatim>\<open>sender\<close> as read from the element, the timestamp converted
  by \<^verbatim>\<open>new Date\<close>; nothing of the prior list stays. The current conversation id becomes the
  given id. This holds whatever the state is when the response arrives.
\<close>

theorem loadConversation_success:
  assumes "res = Inr r" and "ok r" and "json r = Inr history"
    and "get_prop history ''messages'' = Inr (JArr ms)"
    and "\<forall>msg\<in>set ms. \<exists>ts d. get_prop msg ''timestamp'' = Inr ts \<and> newDate ts = Inr d"
    and "s' = loadConversation newDate res conversationId s \<or>
         s' = loadConversation_settle newDate res conversationId s"
  shows "length (messages s') = length ms \<and>
    (\<forall>i<length ms.
       get_prop (ms ! i) ''id'' = Inr (msg_id (messages s' ! i)) \<and>
       get_prop (ms ! i) ''text'' = Inr (msg_text (messages s' ! i)) \<and>
       get_prop (ms ! i) ''sender'' = Inr (msg_sender (messages s' ! i)) \<and>
       (\<exists>ts. get_prop (ms ! i) ''timestamp'' = Inr ts \<and>
          newDate ts = Inr (msg_timestamp (messages s' ! i)))) \<and>
    currentConversationId s' = Some conversationId \<and>
    conversations s' = conversations s"
proof -
  have "\<forall>msg\<in>set ms. \<exists>m. remap_message newDate msg = Inr m"
    using assms(5) remap_message_total by blast
  then obtain loaded where loaded: "mapE (remap_message newDate) ms = Inr loaded"
    using mapE_total by blast
  with assms(4) have "remap_history newDate history = Inr loaded"
    by (simp add: remap_history_def array_map_def)
  with assms(1,2,3) have settle: "\<And>s0. loadConversation_settle newDate res conversationId s0
      = s0\<lparr>messages := loaded, currentConversationId := Some conversationId, isLoading := False\<rparr>"
    by (simp add: loadConversation_settle_ok)
  with assms(6) have s': "messages s' = loaded \<and> currentConversationId s' = Some conversationId \<and>
      conversations s' = conversations s"
    by (auto simp: loadConversation_def loadConversation_begin_def)
  from mapE_Inr [OF loaded] have
    "length loaded = length ms" and
    "\<forall>i<length ms. remap_message newDate (ms ! i) = Inr (loaded ! i)"
    by simp_all
  with s' show ?thesis
    by (simp add: remap_message_Inr)
qed

theorem loadConversation_success_witness:
  "messages (loadConversation example_newDate
      (Inr \<lparr>ok = True, json = Inr example_history\<rparr>) ''c1'' example_state)
     = [\<lparr>msg_id = JStr ''m1'', msg_text = JStr ''hello'', msg_sender = JStr ''user'',
          msg_timestamp = Date 1000\<rparr>,
        \<lparr>msg_id = JStr ''m2'', msg_text = JStr ''hi'', msg_sender = JStr ''bot'',
          msg_timestamp = Date 2000\<rparr>] \<and>
   length (messages (loadConversation example_newDate
      (Inr \<lparr>ok = True, json = Inr example_history\<rparr>) ''c1'' example_state)) = 2 \<and>
   currentConversationId (loadConversation example_newDate
      (Inr \<lparr>ok = True, json = Inr example_history\<rparr>) ''c1'' example_state) = Some ''c1''"
proof -
  let ?r = "\<lparr>ok = True, json = Inr example_history\<rparr>"
  let ?ms = "[JObj [(''id'', JStr ''m1''), (''text'', JStr ''hello''), (''sender'', JStr ''user''),
              (''timestamp'', JStr ''1970-01-01T00:00:01.000Z'')],
        JObj [(''id'', JStr ''m2''), (''text'', JStr ''hi''), (''sender'', JStr ''bot''),
              (''timestamp'', JNum 2000)]]"
  have h1: "Inr ?r = Inr ?r" by simp
  have h2: "ok ?r" by simp
  have h3: "json ?r = Inr example_history" by simp
  have h4: "get_prop example_history ''messages'' = Inr (JArr ?ms)"
    by (simp add: example_history_def)
  have h5: "\<forall>msg\<in>set ?ms. \<exists>ts d. get_prop msg ''timestamp'' = Inr ts \<and> example_newDate ts = Inr d"
    by (simp add: example_newDate_def)
  have h6: "loadConversation example_newDate (Inr ?r) ''c1'' example_state
        = loadConversation example_newDate (Inr ?r) ''c1'' example_state \<or>
      loadConversation example_newDate (Inr ?r) ''c1'' example_state
        = loadConversation_settle example_newDate (Inr ?r) ''c1'' example_state"
    by simp
  have e: "messages (loadConversation example_newDate (Inr ?r) ''c1'' example_state)
     = [\<lparr>msg_id = JStr ''m1'', msg_text = JStr ''hello'', msg_sender = JStr ''user'',
          msg_timestamp = Date 1000\<rparr>,
        \<lparr>msg_id = JStr ''m2'', msg_text = JStr ''hi'', msg_sender = JStr ''bot'',
          msg_timestamp = Date 2000\<rparr>]"
    by (simp add: loadConversation_def loadConversation_begin_def loadConversation_settle_def
        loadConversation_try_def remap_history_def array_map_def remap_message_def
        example_history_def example_newDate_def)
  show ?thesis
    using e loadConversation_success [OF h1 h2 h3 h4 h5 h6] by simp
qed

text \<open>Which decoded bodies make the remapping throw: a body that is null, a body whose
  \<^verbatim>\<open>messages\<close> is not an array, and an array with a null element or with a timestamp the
  \<^verbatim>\<open>Date\<close> constructor throws on.\<close>

lemma remap_message_fails_iff:
  "(\<exists>e. remap_message newDate msg = Inl e) \<longleftrightarrow>
     msg = JUndefined \<or> msg = JNull \<or>
     (\<exists>ts e. get_prop msg ''timestamp'' = Inr ts \<and> newDate ts = Inl e)"
  by (cases msg) (auto simp: remap_message_def split: sum.splits)

lemma remap_history_fails_iff:
  "(\<exists>e. remap_history newDate history = Inl e) \<longleftrightarrow>
     (\<forall>ms. get_prop history ''messages'' \<noteq> Inr (JArr ms)) \<or>
     (\<exists>ms. get_prop history ''messages'' = Inr (JArr ms) \<and>
        (\<exists>msg\<in>set ms. \<exists>e. remap_message newDate msg = Inl e))"
proof (cases "get_prop history ''messages''")
  case (Inl e)
  then show ?thesis by (simp add: remap_history_def)
next
  case (Inr v)
  show ?thesis
  proof (cases "\<exists>ms. v = JArr ms")
    case False
    with Inr show ?thesis
      by (cases v) (auto simp: remap_history_def array_map_def)
  next
    case True
    then obtain ms where v: "v = JArr ms" by blast
    have "(\<exists>e. mapE (remap_message newDate) ms = Inl e)
        \<longleftrightarrow> (\<exists>msg\<in>set ms. \<exists>e. remap_message newDate msg = Inl e)"
    proof
      assume "\<exists>e. mapE (remap_message newDate) ms = Inl e"
      then show "\<exists>msg\<in>set ms. \<exists>e. remap_message newDate msg = Inl e"
        using mapE_Inl by blast
    next
      assume "\<exists>msg\<in>set ms. \<exists>e. remap_message newDate msg = Inl e"
      then obtain i e where i: "i < length ms" and e: "remap_message newDate (ms ! i) = Inl e"
        by (auto simp: in_set_conv_nth)
      have "mapE (remap_message newDate) ms \<noteq> Inr ys" for ys
      proof
        assume "mapE (remap_message newDate) ms = Inr ys"
        from mapE_Inr [OF this] i have "remap_message newDate (ms ! i) = Inr (ys ! i)"
          by simp
        with e show False by simp
      qed
      then show "\<exists>e. mapE (remap_message newDate) ms = Inl e"
        by (cases "mapE (remap_message newDate) ms") auto
    qed
    with Inr v show ?thesis
      by (simp add: remap_history_def array_map_def)
  qed
qed

text \<open>
  C2, as the code has it. A call fails when the fetch throws, when the status is not a
  success, when the body does not decode, or when the decoded body makes the remapping
  throw: its \<^verbatim>\<open>messages\<close> cannot be read or is not an array, or the array has a null element
  or a timestamp the \<^verbatim>\<open>Date\<close> constructor throws on. In each case the message list and the
  current conversation id are what they were, and so is the cached list: the setters run
  only after the whole history has been remapped, so nothing is replaced in part. This
  holds for the state the call was made in and for the state the store has when the fetch
  settles.
\<close>

theorem loadConversation_failure_keeps_state:
  assumes "res = Inl e \<or> (\<exists>r. res = Inr r \<and> (\<not> ok r \<or> (\<exists>e. json r = Inl e) \<or>
      (\<exists>history. json r = Inr history \<and>
         ((\<forall>ms. get_prop history ''messages'' \<noteq> Inr (JArr ms)) \<or>
          (\<exists>ms. get_prop history ''messages'' = Inr (JArr ms) \<and>
             (\<exists>msg\<in>set ms. msg = JUndefined \<or> msg = JNull \<or>
                (\<exists>ts e. get_prop msg ''timestamp'' = Inr ts \<and> newDate ts = Inl e)))))))"
    and "s' = loadConversation newDate res conversationId s \<or>
         s' = loadConversation_settle newDate res conversationId s"
  shows "messages s' = messages s \<and> currentConversationId s' = currentConversationId s \<and>
    conversations s' = conversations s"
proof -
  have throws: "\<exists>e. remap_history newDate history = Inl e"
    if "(\<forall>ms. get_prop history ''messages'' \<noteq> Inr (JArr ms)) \<or>
        (\<exists>ms. get_prop history ''messages'' = Inr (JArr ms) \<and>
           (\<exists>msg\<in>set ms. msg = JUndefined \<or> msg = JNull \<or>
              (\<exists>ts e. get_prop msg ''timestamp'' = Inr ts \<and> newDate ts = Inl e)))"
    for history
    using that
    by (simp only: remap_history_fails_iff [of newDate history]
        remap_message_fails_iff [of newDate])
  from assms(1) have "res = Inl e \<or> (\<exists>r. res = Inr r \<and> (\<not> ok r \<or> (\<exists>e. json r = Inl e) \<or>
      (\<exists>history e. json r = Inr history \<and> remap_history newDate history = Inl e)))"
    using throws by blast
  then have "\<And>s0. loadConversation_settle newDate res conversationId s0 = s0\<lparr>isLoading := False\<rparr>"
    by (rule loadConversation_settle_failed)
  with assms(2) show ?thesis
    by (auto simp: loadConversation_def loadConversation_begin_def)
qed

text \<open>Four failures at one state: the network is down; the remote answers 404; the remote
  answers 200 with a body that has no \<^verbatim>\<open>messages\<close>; the remote answers 200 with a history
  whose second element is null.\<close>

theorem loadConversation_failure_keeps_state_witness:
  "messages (loadConversation example_newDate (Inl NetworkError) ''missing'' example_state)
     = [newMessage 5 6 ''draft'' User] \<and>
   currentConversationId (loadConversation example_newDate (Inl NetworkError) ''missing''
     example_state) = Some ''c0'' \<and>
   messages (loadConversation example_newDate (Inr \<lparr>ok = False, json = Inr JNull\<rparr>) ''missing''
     example_state) = [newMessage 5 6 ''draft'' User] \<and>
   currentConversationId (loadConversation example_newDate
     (Inr \<lparr>ok = False, json = Inr JNull\<rparr>) ''missing'' example_state) = Some ''c0'' \<and>
   messages (loadConversation example_newDate (Inr \<lparr>ok = True, json = Inr (JObj [])\<rparr>) ''c1''
     example_state) = [newMessage 5 6 ''draft'' User] \<and>
   currentConversationId (loadConversation example_newDate
     (Inr \<lparr>ok = True, json = Inr (JObj [])\<rparr>) ''c1'' example_state) = Some ''c0'' \<and>
   messages (loadConversation example_newDate
     (Inr \<lparr>ok = True, json = Inr (JObj [(''messages'',
        JArr [JObj [(''id'', JStr ''m1'')], JNull])])\<rparr>) ''c1''
     example_state) = [newMessage 5 6 ''draft'' User] \<and>
   currentConversationId (loadConversation example_newDate
     (Inr \<lparr>ok = True, json = Inr (JObj [(''messages'',
        JArr [JObj [(''id'', JStr ''m1'')], JNull])])\<rparr>) ''c1''
     example_state) = Some ''c0''"
proof -
  let ?P = "\<lambda>res. res = Inl NetworkError \<or> (\<exists>r. res = Inr r \<and> (\<not> ok r \<or>
      (\<exists>e. json r = Inl e) \<or>
      (\<exists>history. json r = Inr history \<and>
         ((\<forall>ms. get_prop history ''messages'' \<noteq> Inr (JArr ms)) \<or>
          (\<exists>ms. get_prop history ''messages'' = Inr (JArr ms) \<and>
             (\<exists>msg\<in>set ms. msg = JUndefined \<or> msg = JNull \<or>
                (\<exists>ts e. get_prop msg ''timestamp'' = Inr ts \<and>
                   example_newDate ts = Inl e)))))))"
  have a: "?P (Inl NetworkError)" by simp
  have b: "?P (Inr \<lparr>ok = False, json = Inr JNull\<rparr>)" by simp
  have c: "?P (Inr \<lparr>ok = True, json = Inr (JObj [])\<rparr>)" by simp
  have d: "?P (Inr \<lparr>ok = True, json = Inr (JObj [(''messages'',
        JArr [JObj [(''id'', JStr ''m1'')], JNull])])\<rparr>)" by simp
  have m: "messages example_state = [newMessage 5 6 ''draft'' User]"
    and p: "currentConversationId example_state = Some ''c0''"
    by (simp_all add: example_state_def)
  show ?thesis
    using loadConversation_failure_keeps_state [OF a disjI1 [OF refl], of "''missing''" example_state]
      loadConversation_failure_keeps_state [OF b disjI1 [OF refl], of "''missing''" example_state]
      loadConversation_failure_keeps_state [OF c disjI1 [OF refl], of "''c1''" example_state]
      loadConversation_failure_keeps_state [OF d disjI1 [OF refl], of "''c1''" example_state]
    by (simp add: m p)
qed

text \<open>The remote answers 200 with a history whose one message is an object with no \<^verbatim>\<open>id\<close>,
  \<^verbatim>\<open>text\<close>, \<^verbatim>\<open>sender\<close> or \<^verbatim>\<open>timestamp\<close>. Each field reads as \<^verbatim>\<open>undefined\<close>, nothing throws, and
  both setters run: the unsaved message is replaced and the pointer moves.\<close>

theorem loadConversation_missing_fields_counterexample:
  "messages (loadConversation example_newDate
     (Inr \<lparr>ok = True, json = Inr (JObj [(''messages'', JArr [JObj []])])\<rparr>) ''c1'' example_state)
     = [\<lparr>msg_id = JUndefined, msg_text = JUndefined, msg_sender = JUndefined,
          msg_timestamp = Invalid_Date\<rparr>] \<and>
   messages (loadConversation example_newDate
     (Inr \<lparr>ok = True, json = Inr (JObj [(''messages'', JArr [JObj []])])\<rparr>) ''c1'' example_state)
     \<noteq> messages example_state \<and>
   currentConversationId (loadConversation example_newDate
     (Inr \<lparr>ok = True, json = Inr (JObj [(''messages'', JArr [JObj []])])\<rparr>) ''c1'' example_state)
     = Some ''c1'' \<and>
   currentConversationId example_state = Some ''c0''"
  by (simp add: loadConversation_def loadConversation_begin_def loadConversation_settle_def
      loadConversation_try_def remap_history_def array_map_def remap_message_def
      example_newDate_def example_state_def newMessage_def)

section \<open>The loading flag\<close>

lemma deleteConversation_isLoading:
  "isLoading (deleteConversation cur res conversationId s) = isLoading s"
  by (cases res) (simp_all add: deleteConversation_def clearMessages_def Let_def)

lemma loadAgentConversations_isLoading:
  "isLoading (loadAgentConversations res agentName s) = isLoading s"
  by (simp add: loadAgentConversations_def split: sum.splits)

lemma step_keeps_loading:
  "\<not> lowers_loading e \<Longrightarrow> isLoading (store c) \<Longrightarrow> isLoading (store (step newDate e c))"
  by (cases e)
    (simp_all add: addMessage_def clearMessages_def createNewConversation_def setIsLoading_def
      loadConversation_begin_def loadAgentConversations_isLoading deleteConversation_isLoading)

lemma step_keeps_in_flight:
  "\<not> lowers_loading e \<Longrightarrow> conversationId \<in> set (loads_in_flight c) \<Longrightarrow>
   conversationId \<in> set (loads_in_flight (step newDate e c))"
  by (cases e) simp_all

lemma run_keeps_loading:
  "\<forall>e\<in>set es. \<not> lowers_loading e \<Longrightarrow>
   isLoading (store c) \<and> conversationId \<in> set (loads_in_flight c) \<Longrightarrow>
   isLoading (store (run newDate es c)) \<and>
   conversationId \<in> set (loads_in_flight (run newDate es c))"
proof (induction es arbitrary: c)
  case Nil
  then show ?case by simp
next
  case (Cons e es)
  from Cons.prems have "isLoading (store (step newDate e c)) \<and>
      conversationId \<in> set (loads_in_flight (step newDate e c))"
    using step_keeps_loading step_keeps_in_flight by simp
  with Cons.prems Cons.IH show ?case by simp
qed

lemma loadConversation_settle_isLoading:
  "\<not> isLoading (loadConversation_settle newDate res conversationId s)"
  by (simp add: loadConversation_settle_def)

text \<open>
  C5, as the code has it. The call sets the loading flag before it awaits the fetch. While
  the request is in flight the flag stays set through every operation of the store but two:
  a load settling (this one or another one) and the exposed setter called with false.
  When the fetch settles the flag is cleared, whatever the outcome and whatever the
  state: the reset is in the \<^verbatim>\<open>finally\<close>.
\<close>

theorem loadConversation_loading_flag:
  "isLoading (loadConversation_begin s) \<and>
   ((\<forall>e\<in>set es. \<not> lowers_loading e) \<longrightarrow>
      isLoading (store (run newDate es (step newDate (Load_call conversationId) c))) \<and>
      conversationId \<in> set (loads_in_flight
        (run newDate es (step newDate (Load_call conversationId) c)))) \<and>
   \<not> isLoading (loadConversation_settle newDate res conversationId s) \<and>
   \<not> isLoading (loadConversation newDate res conversationId s)"
proof -
  have "isLoading (store (step newDate (Load_call conversationId) c)) \<and>
      conversationId \<in> set (loads_in_flight (step newDate (Load_call conversationId) c))"
    by (simp add: loadConversation_begin_def)
  then have "(\<forall>e\<in>set es. \<not> lowers_loading e) \<longrightarrow>
      isLoading (store (run newDate es (step newDate (Load_call conversationId) c))) \<and>
      conversationId \<in> set (loads_in_flight
        (run newDate es (step newDate (Load_call conversationId) c)))"
    using run_keeps_loading by blast
  then show ?thesis
    by (simp add: loadConversation_begin_def loadConversation_def
        loadConversation_settle_isLoading)
qed

text \<open>A load is called, a message is appended and a delete is called while it is in flight,
  and the load fails: the flag is set in between and cleared at the end.\<close>

theorem loadConversation_loading_flag_witness:
  "isLoading (store (run example_newDate [Add_message 7 8 ''hi'' User, Delete_call ''c2'' None]
      (step example_newDate (Load_call ''c1'') initial_config))) \<and>
   ''c1'' \<in> set (loads_in_flight (run example_newDate
      [Add_message 7 8 ''hi'' User, Delete_call ''c2'' None]
      (step example_newDate (Load_call ''c1'') initial_config))) \<and>
   \<not> isLoading (loadConversation example_newDate (Inl NetworkError) ''c1'' example_state) \<and>
   \<not> isLoading (loadConversation example_newDate
      (Inr \<lparr>ok = False, json = Inr JNull\<rparr>) ''c1'' example_state) \<and>
   \<not> isLoading (loadConversation example_newDate
      (Inr \<lparr>ok = True, json = Inr example_history\<rparr>) ''c1'' example_state)"
proof -
  have h: "\<forall>e\<in>set [Add_message 7 8 ''hi'' User, Delete_call ''c2'' None]. \<not> lowers_loading e"
    by simp
  show ?thesis
    using h
      loadConversation_loading_flag
        [of example_state "[Add_message 7 8 ''hi'' User, Delete_call ''c2'' None]" example_newDate
          "''c1''" initial_config "Inl NetworkError"]
      loadConversation_loading_flag
        [of example_state "[]" example_newDate "''c1''" initial_config
          "Inr \<lparr>ok = False, json = Inr JNull\<rparr>"]
      loadConversation_loading_flag
        [of example_state "[]" example_newDate "''c1''" initial_config
          "Inr \<lparr>ok = True, json = Inr example_history\<rparr>"]
    by simp
qed

text \<open>Two loads overlap and the first one fails while the second is still in flight: the
  flag is down although a request is pending.\<close>

theorem loadConversation_loading_flag_counterexample:
  "loads_in_flight (run example_newDate
      [Load_call ''a'', Load_call ''b'', Load_settled ''a'' (Inl NetworkError)] initial_config)
     = [''b''] \<and>
   \<not> isLoading (store (run example_newDate
      [Load_call ''a'', Load_call ''b'', Load_settled ''a'' (Inl NetworkError)] initial_config))"
  by (simp add: initial_config_def loadConversation_settle_def)

end
